theory Spec2Isabelle
  imports Complex_Main
begin

section \<open>Tensors\<close>

text \<open>
  The module \<^verbatim>\<open>kornia/feature/steerers.py\<close> works on two-dimensional tensors: the
  generator, of shape \<open>[N, N]\<close>, and batches of descriptions, of shape \<open>[M, N]\<close>. A tensor
  is modelled by its rows together with its number of columns, which a tensor with no row
  still has. Its floating-point entries are idealised as real numbers.
\<close>

record tensor =
  ncols :: nat
  rows :: "real list list"

definition nrows :: "tensor \<Rightarrow> nat" where
  "nrows t = length (rows t)"

definition wf_tensor :: "tensor \<Rightarrow> bool" where
  "wf_tensor t = list_all (\<lambda>r. length r = ncols t) (rows t)"

definition entry :: "tensor \<Rightarrow> nat \<Rightarrow> nat \<Rightarrow> real" where
  "entry t i j = rows t ! i ! j"

text \<open>The exceptions the module can end with.\<close>

datatype error =
    ValueError
  | ZeroDivisionError
  | ShapeMismatch  \<comment> \<open>the \<^verbatim>\<open>RuntimeError\<close> of a tensor primitive given shapes that do not fit\<close>

subsection \<open>The tensor primitives the module calls\<close>

text \<open>\<^verbatim>\<open>torch.zeros([n, m])\<close>.\<close>

definition zeros :: "nat \<Rightarrow> nat \<Rightarrow> tensor" where
  "zeros n m = \<lparr>ncols = m, rows = replicate n (replicate m 0)\<rparr>"

text \<open>
  \<^verbatim>\<open>torch.block_diag(*tensors)\<close>: the blocks along the diagonal, zero elsewhere. The first
  block takes the leading rows and columns, the remaining blocks follow below and to the
  right of it.
\<close>

fun block_diag :: "tensor list \<Rightarrow> tensor" where
  "block_diag [] = \<lparr>ncols = 0, rows = []\<rparr>"
| "block_diag (b # bs) =
     \<lparr>ncols = ncols b + ncols (block_diag bs),
      rows = map (\<lambda>r. r @ replicate (ncols (block_diag bs)) 0) (rows b) @
             map (\<lambda>r. replicate (ncols b) 0 @ r) (rows (block_diag bs))\<rparr>"

text \<open>The product of a scalar and a tensor, \<^verbatim>\<open>c * t\<close>.\<close>

definition scale :: "real \<Rightarrow> tensor \<Rightarrow> tensor" where
  "scale c t = \<lparr>ncols = ncols t, rows = map (map (\<lambda>v. c * v)) (rows t)\<rparr>"

definition dot :: "real list \<Rightarrow> real list \<Rightarrow> real" where
  "dot xs ys = sum_list (map (\<lambda>(x, y). x * y) (zip xs ys))"

text \<open>
  \<^verbatim>\<open>torch.nn.functional.linear(x, w)\<close> with no bias: \<open>w\<close> has shape
  \<open>[out_features, in_features]\<close>, \<open>x\<close> has shape \<open>[M, in_features]\<close>, and entry \<open>(m, i)\<close>
  of the result is the sum over \<open>j\<close> of \<open>x[m][j] * w[i][j]\<close>. The primitive raises when the
  width of \<open>x\<close> is not \<open>in_features\<close>.
\<close>

definition linear_t :: "tensor \<Rightarrow> tensor \<Rightarrow> error + tensor" where
  "linear_t x w =
     (if ncols x \<noteq> ncols w then Inl ShapeMismatch
      else Inr \<lparr>ncols = nrows w,
                rows = map (\<lambda>r. map (\<lambda>wr. dot r wr) (rows w)) (rows x)\<rparr>)"

text \<open>
  \<^verbatim>\<open>torch.nn.functional.normalize(t, dim=-1)\<close>, with the defaults \<open>p = 2\<close> and
  \<open>eps = 1e-12\<close> of the primitive: every row is divided by the larger of its Euclidean
  norm and \<open>eps\<close>.
\<close>

definition l2norm :: "real list \<Rightarrow> real" where
  "l2norm r = sqrt (sum_list (map (\<lambda>v. v ^ 2) r))"

definition normalize_eps :: real where
  "normalize_eps = 1 / 10 ^ 12"

definition normalize_row :: "real list \<Rightarrow> real list" where
  "normalize_row r = map (\<lambda>v. v / max (l2norm r) normalize_eps) r"

definition normalize_t :: "tensor \<Rightarrow> tensor" where
  "normalize_t t = \<lparr>ncols = ncols t, rows = map normalize_row (rows t)\<rparr>"

text \<open>
  Matrix product, identity and powers, for the matrix exponential
  \<^verbatim>\<open>torch.matrix_exp\<close>: entry \<open>(i, j)\<close> of the exponential of a square matrix \<open>a\<close> is the
  sum of the series of the entries \<open>(i, j)\<close> of \<open>a ^ n / n!\<close>. The primitive raises on a
  matrix that is not square.
\<close>

definition col :: "tensor \<Rightarrow> nat \<Rightarrow> real list" where
  "col t j = map (\<lambda>r. r ! j) (rows t)"

definition matmul :: "tensor \<Rightarrow> tensor \<Rightarrow> tensor" where
  "matmul a b =
     \<lparr>ncols = ncols b,
      rows = map (\<lambda>r. map (\<lambda>j. dot r (col b j)) [0..<ncols b]) (rows a)\<rparr>"

definition identity :: "nat \<Rightarrow> tensor" where
  "identity n =
     \<lparr>ncols = n,
      rows = map (\<lambda>i. map (\<lambda>j. if i = j then 1 else 0) [0..<n]) [0..<n]\<rparr>"

fun mat_pow :: "tensor \<Rightarrow> nat \<Rightarrow> tensor" where
  "mat_pow a 0 = identity (ncols a)"
| "mat_pow a (Suc n) = matmul a (mat_pow a n)"

definition matrix_exp :: "tensor \<Rightarrow> error + tensor" where
  "matrix_exp a =
     (if nrows a \<noteq> ncols a then Inl ShapeMismatch
      else Inr \<lparr>ncols = ncols a,
                rows = map (\<lambda>i. map (\<lambda>j. \<Sum>n. entry (mat_pow a n) i j / fact n)
                                  [0..<ncols a]) [0..<nrows a]\<rparr>)"

section \<open>The class \<^verbatim>\<open>DiscreteSteerer\<close>\<close>

text \<open>
  The module holds one parameter, the generator, and the \<^verbatim>\<open>training\<close> flag of every
  \<^verbatim>\<open>Module\<close>, which \<^verbatim>\<open>eval()\<close> clears.
\<close>

record steerer =
  generator :: tensor
  training :: bool

definition DiscreteSteerer :: "tensor \<Rightarrow> steerer" where
  "DiscreteSteerer g = \<lparr>generator = g, training = True\<rparr>"

definition eval_mode :: "steerer \<Rightarrow> steerer" where
  "eval_mode s = s\<lparr>training := False\<rparr>"

definition forward :: "steerer \<Rightarrow> tensor \<Rightarrow> error + tensor" where
  "forward s x = linear_t x (generator s)"

text \<open>
  The loop \<^verbatim>\<open>for _ in range(steerer_power): descriptions = self.forward(descriptions)\<close>,
  by the number of iterations left. An exception of \<open>forward\<close> ends it.
\<close>

fun steer_loop :: "steerer \<Rightarrow> nat \<Rightarrow> tensor \<Rightarrow> error + tensor" where
  "steer_loop s 0 descriptions = Inr descriptions"
| "steer_loop s (Suc n) descriptions =
     (case forward s descriptions of
        Inl e \<Rightarrow> Inl e
      | Inr d \<Rightarrow> steer_loop s n d)"

text \<open>\<^verbatim>\<open>range(k)\<close> is empty for a negative \<open>k\<close>: the loop runs \<open>nat k\<close> times.\<close>

definition steer_descriptions :: "steerer \<Rightarrow> tensor \<Rightarrow> int \<Rightarrow> bool \<Rightarrow> error + tensor" where
  "steer_descriptions s descriptions steerer_power normalize_flag =
     (case steer_loop s (nat steerer_power) descriptions of
        Inl e \<Rightarrow> Inl e
      | Inr d \<Rightarrow> Inr (if normalize_flag then normalize_t d else d))"

subsection \<open>\<^verbatim>\<open>from_pretrained\<close>\<close>

definition descriptor_dim :: int where
  "descriptor_dim = 256"

definition c4_block :: tensor where
  "c4_block = \<lparr>ncols = 4, rows = [[0, 1, 0, 0],
                                  [0, 0, 1, 0],
                                  [0, 0, 0, 1],
                                  [1, 0, 0, 0]]\<rparr>"

definition so2_block :: "int \<Rightarrow> tensor" where
  "so2_block j = \<lparr>ncols = 2, rows = [[0, of_int j],
                                     [- of_int j, 0]]\<rparr>"

text \<open>
  The size of the leading zero block is written
  \<^verbatim>\<open>descriptor_dim - 12 * descriptor_dim // 14\<close> in the source; \<^verbatim>\<open>*\<close> and \<^verbatim>\<open>//\<close> have the
  same precedence in Python and associate to the left, so the product is taken first.
  The blocks that follow are those of
  \<^verbatim>\<open>for j in range(1, 7) for _ in range(descriptor_dim // 14)\<close>. The division by
  \<^verbatim>\<open>steerer_order\<close> raises when it is zero.
\<close>

definition lie_generator :: tensor where
  "lie_generator =
     block_diag
       (zeros (nat (descriptor_dim - (12 * descriptor_dim) div 14))
              (nat (descriptor_dim - (12 * descriptor_dim) div 14)) #
        concat (map (\<lambda>j. replicate (nat (descriptor_dim div 14)) (so2_block j)) [1..6]))"

text \<open>
  The generator of the \<^verbatim>\<open>"C4"\<close> branch: the block of \<^const>\<open>c4_block\<close>, once
  \<^verbatim>\<open>for _ in range(descriptor_dim // 4)\<close>.
\<close>

definition c4_generator :: tensor where
  "c4_generator = block_diag (replicate (nat (descriptor_dim div 4)) c4_block)"

definition from_pretrained :: "string \<Rightarrow> int \<Rightarrow> error + steerer" where
  "from_pretrained generator_type steerer_order =
     (if generator_type = ''C4'' then
        Inr (eval_mode (DiscreteSteerer c4_generator))
      else if generator_type = ''SO2'' then
        (if steerer_order = 0 then Inl ZeroDivisionError
         else case matrix_exp (scale (2 * 3.14159 / of_int steerer_order) lie_generator) of
                Inl e \<Rightarrow> Inl e
              | Inr g \<Rightarrow> Inr (eval_mode (DiscreteSteerer g)))
      else Inl ValueError)"

section \<open>The specification's notions\<close>

text \<open>
  The transpose of a tensor and repeated application, as the specification words them:
  \<open>apply(X)\<close> is \<open>X \<cdot> G\<^sup>t\<close>, the product \<^const>\<open>matmul\<close> of the batch and the transposed
  generator, and \<open>steer\<close> with power \<open>k\<close> is \<open>apply\<close> composed with itself \<open>k\<close> times. One
  application on a result that may already be an exception is \<open>apply_step\<close>.
\<close>

definition transpose_t :: "tensor \<Rightarrow> tensor" where
  "transpose_t t =
     \<lparr>ncols = nrows t, rows = map (\<lambda>j. map (\<lambda>r. r ! j) (rows t)) [0..<ncols t]\<rparr>"

definition apply_step :: "steerer \<Rightarrow> error + tensor \<Rightarrow> error + tensor" where
  "apply_step s r = (case r of Inl e \<Rightarrow> Inl e | Inr d \<Rightarrow> forward s d)"

text \<open>
  The cyclic shift inside every group of four coordinates, which is what one application of
  the \<^verbatim>\<open>"C4"\<close> generator will be shown to do to a row.
\<close>

fun rot4 :: "real list \<Rightarrow> real list" where
  "rot4 (a # b # c # d # xs) = b # c # d # a # rot4 xs"
| "rot4 xs = []"

section \<open>The linear map\<close>

lemma col_transpose:
  assumes "wf_tensor g" "i < nrows g"
  shows "col (transpose_t g) i = rows g ! i"
proof -
  have len: "length (rows g ! i) = ncols g"
    using assms by (simp add: wf_tensor_def nrows_def list_all_length)
  have "col (transpose_t g) i = map (\<lambda>j. rows g ! i ! j) [0..<ncols g]"
    using assms(2) by (simp add: col_def transpose_t_def nrows_def)
  also have "\<dots> = rows g ! i"
    unfolding len[symmetric] by (rule map_nth)
  finally show ?thesis .
qed

lemma map_over_indices: "map (\<lambda>i. f (ws ! i)) [0..<length ws] = map f ws"
  by (rule nth_equalityI) simp_all

text \<open>
  Claim C2. For a generator \<open>G\<close> whose rows all have the generator's width (an \<open>N \<times> N\<close>
  generator among them) and a batch \<open>X\<close> of that width, \<open>forward\<close> returns the product
  \<open>X \<cdot> G\<^sup>t\<close> of the batch and the transposed generator, and nothing is added to it.
\<close>

theorem forward_is_product_with_transpose:
  assumes "wf_tensor (generator s)" and "ncols x = ncols (generator s)"
  shows "forward s x = Inr (matmul x (transpose_t (generator s)))"
proof -
  let ?g = "generator s"
  have "map (\<lambda>j. dot r (col (transpose_t ?g) j)) [0..<nrows ?g] = map (\<lambda>wr. dot r wr) (rows ?g)"
    for r
  proof -
    have "map (\<lambda>j. dot r (col (transpose_t ?g) j)) [0..<nrows ?g] =
          map (\<lambda>j. dot r (rows ?g ! j)) [0..<nrows ?g]"
      using assms(1) by (simp add: col_transpose)
    also have "\<dots> = map (\<lambda>wr. dot r wr) (rows ?g)"
      unfolding nrows_def by (rule map_over_indices)
    finally show ?thesis .
  qed
  then show ?thesis
    using assms(2) by (simp add: forward_def linear_t_def matmul_def transpose_t_def)
qed

theorem forward_is_product_with_transpose_witness:
  "wf_tensor \<lparr>ncols = 2, rows = [[1, 2], [3, 4]]\<rparr> \<and>
   forward \<lparr>generator = \<lparr>ncols = 2, rows = [[1, 2], [3, 4]]\<rparr>, training = False\<rparr>
           \<lparr>ncols = 2, rows = [[1, 1]]\<rparr> =
     Inr (matmul \<lparr>ncols = 2, rows = [[1, 1]]\<rparr>
                 (transpose_t \<lparr>ncols = 2, rows = [[1, 2], [3, 4]]\<rparr>)) \<and>
   forward \<lparr>generator = \<lparr>ncols = 2, rows = [[1, 2], [3, 4]]\<rparr>, training = False\<rparr>
           \<lparr>ncols = 2, rows = [[1, 1]]\<rparr> = Inr \<lparr>ncols = 2, rows = [[3, 7]]\<rparr>"
proof -
  have wf: "wf_tensor \<lparr>ncols = 2, rows = [[1, 2], [3, 4]]\<rparr>"
    by (simp add: wf_tensor_def)
  have val: "forward \<lparr>generator = \<lparr>ncols = 2, rows = [[1, 2], [3, 4]]\<rparr>, training = False\<rparr>
                     \<lparr>ncols = 2, rows = [[1, 1]]\<rparr> = Inr \<lparr>ncols = 2, rows = [[3, 7]]\<rparr>"
    by (simp add: forward_def linear_t_def dot_def nrows_def)
  show ?thesis
    using wf val
      forward_is_product_with_transpose
        [of "\<lparr>generator = \<lparr>ncols = 2, rows = [[1, 2], [3, 4]]\<rparr>, training = False\<rparr>"
            "\<lparr>ncols = 2, rows = [[1, 1]]\<rparr>"]
    by simp
qed

text \<open>
  Claim C8. When the generator is \<open>N \<times> N\<close> and the batch has a width \<open>W\<close> other than \<open>N\<close>,
  \<open>forward\<close> ends with the shape error of the linear primitive, and so does
  \<open>steer_descriptions\<close> for any power of at least one, with or without normalisation:
  nothing catches the error or replaces it.
\<close>

lemma steer_loop_first_error: "forward s x = Inl e \<Longrightarrow> 0 < n \<Longrightarrow> steer_loop s n x = Inl e"
  by (cases n) simp_all

theorem shape_mismatch_propagates:
  assumes "nrows (generator s) = N" and "ncols (generator s) = N"
      and "ncols x = W" and "W \<noteq> N"
  shows "forward s x = Inl ShapeMismatch \<and>
         (1 \<le> k \<longrightarrow> steer_descriptions s x k normalize_flag = Inl ShapeMismatch)"
  using assms
  by (auto simp: forward_def linear_t_def steer_descriptions_def steer_loop_first_error)

theorem shape_mismatch_propagates_witness:
  "nrows \<lparr>ncols = 1, rows = [[1]]\<rparr> = 1 \<and> (2::nat) \<noteq> 1 \<and> (1::int) \<le> 3 \<and>
   forward \<lparr>generator = \<lparr>ncols = 1, rows = [[1]]\<rparr>, training = False\<rparr>
           \<lparr>ncols = 2, rows = [[5, 6]]\<rparr> = Inl ShapeMismatch \<and>
   steer_descriptions \<lparr>generator = \<lparr>ncols = 1, rows = [[1]]\<rparr>, training = False\<rparr>
           \<lparr>ncols = 2, rows = [[5, 6]]\<rparr> 3 True = Inl ShapeMismatch"
  using shape_mismatch_propagates
          [of "\<lparr>generator = \<lparr>ncols = 1, rows = [[1]]\<rparr>, training = False\<rparr>" 1
              "\<lparr>ncols = 2, rows = [[5, 6]]\<rparr>" 2 3 True]
  by (simp add: nrows_def)

section \<open>Steering\<close>

lemma apply_step_Inl: "(apply_step s ^^ n) (Inl e) = Inl e"
  by (induction n) (simp_all add: apply_step_def)

lemma apply_step_Inr: "apply_step s (Inr d) = forward s d"
  by (simp add: apply_step_def)

lemma steer_loop_funpow: "steer_loop s n x = (apply_step s ^^ n) (Inr x)"
proof (induction n arbitrary: x)
  case 0
  show ?case by simp
next
  case (Suc n)
  have first: "(apply_step s ^^ Suc n) (Inr x) = (apply_step s ^^ n) (forward s x)"
    by (simp add: funpow_swap1 apply_step_Inr)
  show ?case
  proof (cases "forward s x")
    case (Inl e)
    then show ?thesis unfolding first by (simp add: apply_step_Inl)
  next
    case (Inr d)
    then show ?thesis unfolding first using Suc[of d] by simp
  qed
qed

text \<open>
  Claim C3. For a power \<open>k \<ge> 0\<close> and no normalisation, \<open>steer_descriptions\<close> is \<open>forward\<close>
  composed with itself \<open>k\<close> times on the batch (an exception of one application ends the
  chain); with power \<open>0\<close> the batch comes back as it is.
\<close>

theorem steer_is_iterated_forward:
  assumes "0 \<le> k"
  shows "steer_descriptions s x k False = (apply_step s ^^ nat k) (Inr x) \<and>
         steer_descriptions s x 0 False = Inr x"
  using assms by (simp add: steer_descriptions_def steer_loop_funpow split: sum.splits)

theorem steer_is_iterated_forward_witness:
  "(0::int) \<le> 2 \<and>
   steer_descriptions \<lparr>generator = \<lparr>ncols = 1, rows = [[2]]\<rparr>, training = False\<rparr>
       \<lparr>ncols = 1, rows = [[3]]\<rparr> 2 False =
     (apply_step \<lparr>generator = \<lparr>ncols = 1, rows = [[2]]\<rparr>, training = False\<rparr> ^^ nat 2)
       (Inr \<lparr>ncols = 1, rows = [[3]]\<rparr>) \<and>
   (apply_step \<lparr>generator = \<lparr>ncols = 1, rows = [[2]]\<rparr>, training = False\<rparr> ^^ nat 2)
       (Inr \<lparr>ncols = 1, rows = [[3]]\<rparr>) = Inr \<lparr>ncols = 1, rows = [[12]]\<rparr>"
proof -
  have val: "(apply_step \<lparr>generator = \<lparr>ncols = 1, rows = [[2]]\<rparr>, training = False\<rparr> ^^ nat 2)
               (Inr \<lparr>ncols = 1, rows = [[3]]\<rparr>) = Inr \<lparr>ncols = 1, rows = [[12]]\<rparr>"
    by (simp add: numeral_2_eq_2 apply_step_def forward_def linear_t_def dot_def nrows_def)
  show ?thesis
    using val
      steer_is_iterated_forward
        [of 2 "\<lparr>generator = \<lparr>ncols = 1, rows = [[2]]\<rparr>, training = False\<rparr>"
            "\<lparr>ncols = 1, rows = [[3]]\<rparr>"]
    by simp
qed

text \<open>
  Claim C10. With power \<open>0\<close> and normalisation asked for, \<open>steer_descriptions\<close> returns the
  normalised batch: the normalisation runs although no steering step does. The result is
  then not the batch itself in general; on the batch with the single row \<open>[2]\<close> it is the
  batch with the row \<open>[1]\<close>.
\<close>

theorem zero_power_still_normalizes:
  "steer_descriptions s x 0 True = Inr (normalize_t x) \<and>
   steer_descriptions s \<lparr>ncols = 1, rows = [[2]]\<rparr> 0 True = Inr \<lparr>ncols = 1, rows = [[1]]\<rparr> \<and>
   steer_descriptions s \<lparr>ncols = 1, rows = [[2]]\<rparr> 0 True \<noteq> Inr \<lparr>ncols = 1, rows = [[2]]\<rparr>"
  by (simp add: steer_descriptions_def normalize_t_def normalize_row_def l2norm_def
        normalize_eps_def)

section \<open>Normalisation\<close>

lemma sum_sq_div:
  "sum_list (map (\<lambda>v. (v / c) ^ 2) r) = sum_list (map (\<lambda>v. v ^ 2) r) / c ^ 2" for c :: real
proof (induction r)
  case Nil
  show ?case by simp
next
  case (Cons a r)
  have "(a / c) ^ 2 + sum_list (map (\<lambda>v. v ^ 2) r) / c ^ 2 =
        (a ^ 2 + sum_list (map (\<lambda>v. v ^ 2) r)) / c ^ 2"
    by (simp only: power_divide add_divide_distrib)
  with Cons show ?case by simp
qed

lemma l2norm_div:
  assumes "0 < c"
  shows "l2norm (map (\<lambda>v. v / c) r) = l2norm r / c"
proof -
  have "l2norm (map (\<lambda>v. v / c) r) = sqrt (sum_list (map (\<lambda>v. (v / c) ^ 2) r))"
    by (simp add: l2norm_def comp_def)
  also have "\<dots> = sqrt (sum_list (map (\<lambda>v. v ^ 2) r) / c ^ 2)"
    by (simp only: sum_sq_div)
  also have "\<dots> = l2norm r / c"
    using assms by (simp add: l2norm_def real_sqrt_divide)
  finally show ?thesis .
qed

lemma normalize_row_unit:
  assumes "normalize_eps \<le> l2norm r"
  shows "l2norm (normalize_row r) = 1"
proof -
  have pos: "0 < l2norm r"
    using assms by (simp add: normalize_eps_def)
  have "max (l2norm r) normalize_eps = l2norm r"
    using assms by simp
  then show ?thesis
    using pos by (simp add: normalize_row_def l2norm_div)
qed

text \<open>
  Claim C4, as stated: whenever the steered rows are nonzero, the rows returned with
  normalisation have unit norm. It fails on the \<open>1 \<times> 1\<close> identity generator and the batch
  with the single row \<open>[10\<^sup>-\<^sup>1\<^sup>3]\<close>: the steered row is that row, not zero, its norm is below
  \<open>eps\<close>, so it is divided by \<open>eps\<close>, and the row returned is \<open>[1/10]\<close>, of norm \<open>1/10\<close>.
\<close>

theorem normalize_tiny_row_counterexample:
  "steer_descriptions \<lparr>generator = \<lparr>ncols = 1, rows = [[1]]\<rparr>, training = False\<rparr>
      \<lparr>ncols = 1, rows = [[1 / 10 ^ 13]]\<rparr> 1 False = Inr \<lparr>ncols = 1, rows = [[1 / 10 ^ 13]]\<rparr>
   \<and> [1 / 10 ^ 13] \<noteq> [0::real]
   \<and> steer_descriptions \<lparr>generator = \<lparr>ncols = 1, rows = [[1]]\<rparr>, training = False\<rparr>
      \<lparr>ncols = 1, rows = [[1 / 10 ^ 13]]\<rparr> 1 True = Inr \<lparr>ncols = 1, rows = [[1 / 10]]\<rparr>
   \<and> l2norm [1 / 10] = 1 / 10
   \<and> l2norm [1 / 10] \<noteq> 1"
  by (simp add: steer_descriptions_def forward_def linear_t_def dot_def nrows_def
        normalize_t_def normalize_row_def l2norm_def normalize_eps_def)

text \<open>
  Claim C4, amended: whenever steering without normalisation returns a batch \<open>y\<close> whose rows
  all have a Euclidean norm of at least \<open>eps = 10\<^sup>-\<^sup>1\<^sup>2\<close>, steering with normalisation returns
  the batch in which every row of \<open>y\<close> is divided by the larger of its norm and \<open>eps\<close>, and
  every row of that batch has norm exactly \<open>1\<close>.
\<close>

theorem normalize_gives_unit_rows:
  assumes "steer_descriptions s x k False = Inr y"
      and "list_all (\<lambda>r. normalize_eps \<le> l2norm r) (rows y)"
  shows "steer_descriptions s x k True = Inr (normalize_t y) \<and>
         rows (normalize_t y) =
           map (\<lambda>r. map (\<lambda>v. v / max (l2norm r) normalize_eps) r) (rows y) \<and>
         list_all (\<lambda>r. l2norm r = 1) (rows (normalize_t y))"
proof -
  have "steer_descriptions s x k True = Inr (normalize_t y)"
    using assms(1) by (simp add: steer_descriptions_def split: sum.splits)
  moreover have "list_all (\<lambda>r. l2norm r = 1) (rows (normalize_t y))"
    using assms(2) by (simp add: normalize_t_def list_all_iff normalize_row_unit)
  moreover have "rows (normalize_t y) =
      map (\<lambda>r. map (\<lambda>v. v / max (l2norm r) normalize_eps) r) (rows y)"
    by (simp add: normalize_t_def normalize_row_def)
  ultimately show ?thesis by simp
qed

theorem normalize_gives_unit_rows_witness:
  "steer_descriptions \<lparr>generator = \<lparr>ncols = 1, rows = [[1]]\<rparr>, training = False\<rparr>
      \<lparr>ncols = 1, rows = [[3]]\<rparr> 1 False = Inr \<lparr>ncols = 1, rows = [[3]]\<rparr> \<and>
   list_all (\<lambda>r. normalize_eps \<le> l2norm r) (rows \<lparr>ncols = 1, rows = [[3]]\<rparr>) \<and>
   steer_descriptions \<lparr>generator = \<lparr>ncols = 1, rows = [[1]]\<rparr>, training = False\<rparr>
      \<lparr>ncols = 1, rows = [[3]]\<rparr> 1 True = Inr (normalize_t \<lparr>ncols = 1, rows = [[3]]\<rparr>) \<and>
   list_all (\<lambda>r. l2norm r = 1) (rows (normalize_t \<lparr>ncols = 1, rows = [[3]]\<rparr>))"
proof -
  have run: "steer_descriptions \<lparr>generator = \<lparr>ncols = 1, rows = [[1]]\<rparr>, training = False\<rparr>
      \<lparr>ncols = 1, rows = [[3]]\<rparr> 1 False = Inr \<lparr>ncols = 1, rows = [[3]]\<rparr>"
    by (simp add: steer_descriptions_def forward_def linear_t_def dot_def nrows_def)
  have big: "list_all (\<lambda>r. normalize_eps \<le> l2norm r) (rows \<lparr>ncols = 1, rows = [[3]]\<rparr>)"
    by (simp add: l2norm_def normalize_eps_def)
  show ?thesis
    using run big normalize_gives_unit_rows [OF run big] by blast
qed

section \<open>The pretrained generators\<close>

text \<open>
  Claim C7. Every \<open>generator_type\<close> other than \<^verbatim>\<open>"C4"\<close> and \<^verbatim>\<open>"SO2"\<close> makes
  \<open>from_pretrained\<close> end with \<open>ValueError\<close>, whatever the order: no steerer is returned.
\<close>

theorem unknown_generator_type_raises:
  assumes "generator_type \<noteq> ''C4''" and "generator_type \<noteq> ''SO2''"
  shows "from_pretrained generator_type steerer_order = Inl ValueError"
  using assms by (simp add: from_pretrained_def)

theorem unknown_generator_type_raises_witness:
  "''invalid'' \<noteq> ''C4'' \<and> ''invalid'' \<noteq> ''SO2'' \<and> from_pretrained ''invalid'' 8 = Inl ValueError"
  using unknown_generator_type_raises [of "''invalid''" 8] by simp

text \<open>
  Claim C9. The \<^verbatim>\<open>"C4"\<close> branch never reads \<open>steerer_order\<close>: any two orders give the same
  steerer, the one built on \<^const>\<open>c4_generator\<close>, hence the same generator.
\<close>

theorem c4_ignores_steerer_order:
  "from_pretrained ''C4'' k1 = from_pretrained ''C4'' k2 \<and>
   from_pretrained ''C4'' k1 = Inr (eval_mode (DiscreteSteerer c4_generator))"
  by (simp add: from_pretrained_def)

subsection \<open>Shapes of block-diagonal tensors\<close>

lemma ncols_block_diag: "ncols (block_diag bs) = sum_list (map ncols bs)"
  by (induction bs) simp_all

lemma nrows_block_diag: "nrows (block_diag bs) = sum_list (map nrows bs)"
  by (induction bs) (simp_all add: nrows_def)

lemma wf_block_diag: "list_all wf_tensor bs \<Longrightarrow> wf_tensor (block_diag bs)"
  by (induction bs) (auto simp: wf_tensor_def list_all_iff)

subsection \<open>The linear map of a block-diagonal generator\<close>

lemma dot_append:
  "length a = length c \<Longrightarrow> dot (a @ b) (c @ d) = dot a c + dot b d"
  by (simp add: dot_def)

lemma dot_zeros: "dot x (replicate n 0) = 0"
proof -
  have "\<forall>p \<in> set (zip x (replicate n (0::real))). (case p of (u, v) \<Rightarrow> u * v) = 0"
    by (auto dest: set_zip_rightD)
  then have "map (\<lambda>(u, v). u * v) (zip x (replicate n (0::real))) = replicate (length (zip x (replicate n (0::real)))) 0"
    by (simp add: map_replicate_const[symmetric] del: length_zip)
  then show ?thesis by (simp add: dot_def sum_list_replicate del: length_zip)
qed

lemma dots_block_diag:
  assumes "wf_tensor b" "length x1 = ncols b"
  shows "map (dot (x1 @ x2)) (rows (block_diag (b # bs))) =
         map (dot x1) (rows b) @ map (dot x2) (rows (block_diag bs))"
proof -
  have top: "dot (x1 @ x2) (r @ replicate n 0) = dot x1 r" if "r \<in> set (rows b)" for r n
  proof -
    have "length x1 = length r" using that assms by (simp add: wf_tensor_def list_all_iff)
    then show ?thesis by (simp add: dot_append dot_zeros)
  qed
  have bot: "dot (x1 @ x2) (replicate (ncols b) 0 @ r) = dot x2 r" for r
    using assms(2) by (simp add: dot_append dot_zeros)
  show ?thesis by (simp add: top bot comp_def)
qed

lemma dots_c4_block: "map (dot [a, b, c, d]) (rows c4_block) = [b, c, d, a]"
  by (simp add: c4_block_def dot_def)

lemma ncols_c4_block: "ncols c4_block = 4"
  by (simp add: c4_block_def)

lemma nrows_c4_block: "nrows c4_block = 4"
  by (simp add: c4_block_def nrows_def)

lemma wf_c4_block: "wf_tensor c4_block"
  by (simp add: c4_block_def wf_tensor_def)

lemma dots_c4_generator:
  "length x = 4 * n \<Longrightarrow> map (dot x) (rows (block_diag (replicate n c4_block))) = rot4 x"
proof (induction n arbitrary: x)
  case 0
  then show ?case by simp
next
  case (Suc n)
  then obtain a b c d xs where x: "x = [a, b, c, d] @ xs" and xs: "length xs = 4 * n"
    by (auto simp: length_Suc_conv numeral_eq_Suc) 
  have "map (dot ([a, b, c, d] @ xs)) (rows (block_diag (c4_block # replicate n c4_block))) =
        map (dot [a, b, c, d]) (rows c4_block) @ map (dot xs) (rows (block_diag (replicate n c4_block)))"
    by (rule dots_block_diag) (simp_all add: wf_c4_block ncols_c4_block)
  then show ?case using Suc.IH[OF xs] x by (simp add: dots_c4_block)
qed

lemma length_rot4: "length x = 4 * n \<Longrightarrow> length (rot4 x) = 4 * n"
proof (induction n arbitrary: x)
  case 0
  then show ?case by simp
next
  case (Suc n)
  then obtain a b c d xs where x: "x = a # b # c # d # xs" and xs: "length xs = 4 * n"
    by (auto simp: length_Suc_conv numeral_eq_Suc) 
  then show ?case using Suc.IH[OF xs] by simp
qed

lemma rot4_period: "length x = 4 * n \<Longrightarrow> rot4 (rot4 (rot4 (rot4 x))) = x"
proof (induction n arbitrary: x)
  case 0
  then show ?case by simp
next
  case (Suc n)
  then obtain a b c d xs where x: "x = a # b # c # d # xs" and xs: "length xs = 4 * n"
    by (auto simp: length_Suc_conv numeral_eq_Suc) 
  then show ?case using Suc.IH[OF xs] by simp
qed


subsection \<open>Entries of a block-diagonal tensor of equal square blocks\<close>

lemma block_diag_replicate_entry:
  assumes wf: "wf_tensor b" and nr: "nrows b = k" and nc: "ncols b = k" and k: "0 < k"
  shows "i < n * k \<Longrightarrow> j < n * k \<Longrightarrow>
         entry (block_diag (replicate n b)) i j =
           (if i div k = j div k then entry b (i mod k) (j mod k) else 0)"
proof (induction n arbitrary: i j)
  case 0
  then show ?case by simp
next
  case (Suc n)
  let ?R = "block_diag (replicate n b)"
  have ncR: "ncols ?R = n * k"
    by (simp add: ncols_block_diag nc sum_list_replicate)
  have lenb: "length (rows b) = k" using nr by (simp add: nrows_def)
  have "nrows ?R = n * k"
    by (simp add: nrows_block_diag nr sum_list_replicate)
  then have nrR: "length (rows ?R) = n * k"
    by (simp add: nrows_def)
  have rows: "rows (block_diag (replicate (Suc n) b)) =
              map (\<lambda>r. r @ replicate (n * k) 0) (rows b) @ map (\<lambda>r. replicate k 0 @ r) (rows ?R)"
    by (simp add: ncR nc)
  show ?case
  proof (cases "i < k")
    case True
    have rowlen: "length (rows b ! i) = k"
      using wf True lenb nc by (simp add: wf_tensor_def list_all_length)
    have row: "rows (block_diag (replicate (Suc n) b)) ! i = rows b ! i @ replicate (n * k) 0"
      unfolding rows using True lenb by (simp add: nth_append)
    show ?thesis
    proof (cases "j < k")
      case jk: True
      then show ?thesis using True row rowlen by (simp add: entry_def nth_append)
    next
      case jk: False
      then have "j div k \<noteq> 0" using k by (simp add: div_eq_0_iff)
      moreover have "j - k < n * k" using Suc.prems(2) jk by simp
      ultimately show ?thesis using True jk row rowlen by (simp add: entry_def nth_append)
    qed
  next
    case False
    have ik: "i - k < n * k" using Suc.prems(1) False by simp
    have row: "rows (block_diag (replicate (Suc n) b)) ! i = replicate k 0 @ rows ?R ! (i - k)"
      unfolding rows using False lenb ik nrR by (simp add: nth_append)
    have idiv: "i div k = Suc ((i - k) div k)" "i mod k = (i - k) mod k"
      using False k by (simp_all add: le_div_geq le_mod_geq)
    show ?thesis
    proof (cases "j < k")
      case jk: True
      then show ?thesis using row idiv by (simp add: entry_def nth_append)
    next
      case jk: False
      have jk': "j - k < n * k" using Suc.prems(2) jk by simp
      have jdiv: "j div k = Suc ((j - k) div k)" "j mod k = (j - k) mod k"
        using jk k by (simp_all add: le_div_geq le_mod_geq)
      have "entry (block_diag (replicate (Suc n) b)) i j = entry ?R (i - k) (j - k)"
        using row jk by (simp add: entry_def nth_append)
      also have "\<dots> = (if (i - k) div k = (j - k) div k
                        then entry b ((i - k) mod k) ((j - k) mod k) else 0)"
        by (rule Suc.IH[OF ik jk'])
      finally show ?thesis by (simp add: idiv jdiv)
    qed
  qed
qed


subsection \<open>The \<^verbatim>\<open>"C4"\<close> generator\<close>

lemma c4_generator_64: "c4_generator = block_diag (replicate 64 c4_block)"
  by (simp add: c4_generator_def descriptor_dim_def)

lemma ncols_c4_generator: "ncols c4_generator = 256"
  unfolding c4_generator_64 ncols_block_diag
  by (simp add: ncols_c4_block sum_list_replicate)

lemma nrows_c4_generator: "nrows c4_generator = 256"
  unfolding c4_generator_64 nrows_block_diag
  by (simp add: nrows_c4_block sum_list_replicate)

lemma wf_c4_generator: "wf_tensor c4_generator"
  unfolding c4_generator_64
  by (rule wf_block_diag) (simp add: list_all_iff wf_c4_block)

lemma forward_c4:
  assumes "generator s = c4_generator" "wf_tensor x" "ncols x = 256"
  shows "forward s x = Inr \<lparr>ncols = 256, rows = map rot4 (rows x)\<rparr>"
proof -
  have "map (dot r) (rows c4_generator) = rot4 r" if "r \<in> set (rows x)" for r
  proof -
    have "length r = 4 * 64" using that assms(2,3) by (simp add: wf_tensor_def list_all_iff)
    then show ?thesis unfolding c4_generator_64 by (rule dots_c4_generator)
  qed
  then have "map (\<lambda>r. map (dot r) (rows c4_generator)) (rows x) = map rot4 (rows x)"
    by simp
  then show ?thesis
    using assms by (simp add: forward_def linear_t_def ncols_c4_generator nrows_c4_generator)
qed

lemma wf_rot4_rows:
  assumes "wf_tensor x" "ncols x = 256"
  shows "wf_tensor \<lparr>ncols = 256, rows = map rot4 (rows x)\<rparr>"
proof -
  have "length (rot4 r) = 4 * 64" if "r \<in> set (rows x)" for r
  proof -
    have "length r = 4 * 64" using that assms by (simp add: wf_tensor_def list_all_iff)
    then show ?thesis by (rule length_rot4)
  qed
  then show ?thesis by (simp add: wf_tensor_def list_all_iff)
qed

lemma steer_c4_period:
  assumes g: "generator s = c4_generator" and wf: "wf_tensor x" and w: "ncols x = 256"
  shows "steer_descriptions s x 4 False = Inr x"
proof -
  let ?r = "\<lambda>y. \<lparr>ncols = 256, rows = map rot4 (rows y)\<rparr>"
  have step: "forward s y = Inr (?r y) \<and> wf_tensor (?r y) \<and> ncols (?r y) = 256"
    if "wf_tensor y" "ncols y = 256" for y
    using that g by (simp add: forward_c4 wf_rot4_rows)
  have s1: "forward s x = Inr (?r x)" "wf_tensor (?r x)" "ncols (?r x) = 256"
    using step[OF wf w] by simp_all
  have s2: "forward s (?r x) = Inr (?r (?r x))" "wf_tensor (?r (?r x))" "ncols (?r (?r x)) = 256"
    using step[OF s1(2,3)] by simp_all
  have s3: "forward s (?r (?r x)) = Inr (?r (?r (?r x)))" "wf_tensor (?r (?r (?r x)))"
    "ncols (?r (?r (?r x))) = 256"
    using step[OF s2(2,3)] by simp_all
  have s4: "forward s (?r (?r (?r x))) = Inr (?r (?r (?r (?r x))))"
    using step[OF s3(2,3)] by simp
  have "steer_loop s (Suc (Suc (Suc (Suc 0)))) x = Inr (?r (?r (?r (?r x))))"
    by (simp only: steer_loop.simps s1(1) s2(1) s3(1) s4 sum.case)
  moreover have "nat 4 = Suc (Suc (Suc (Suc 0)))" by simp
  ultimately have run: "steer_descriptions s x 4 False = Inr (?r (?r (?r (?r x))))"
    by (simp only: steer_descriptions_def sum.case if_False)
  have "rot4 (rot4 (rot4 (rot4 r))) = r" if "r \<in> set (rows x)" for r
  proof -
    have "length r = 4 * 64" using that wf w by (simp add: wf_tensor_def list_all_iff)
    then show ?thesis by (rule rot4_period)
  qed
  then have "map (\<lambda>r. rot4 (rot4 (rot4 (rot4 r)))) (rows x) = rows x"
    by (simp add: map_idI)
  then have "?r (?r (?r (?r x))) = x"
    using w by (simp add: comp_def)
  with run show ?thesis by simp
qed

text \<open>
  Claim C5. For any order, \<open>from_pretrained "C4"\<close> returns a steerer whose generator is the
  block-diagonal tensor of 64 copies of the \<open>4 \<times> 4\<close> cyclic permutation block: it has 256
  rows, all of length 256, its entry \<open>(i, j)\<close> is the entry \<open>(i mod 4, j mod 4)\<close> of the block
  when \<open>i\<close> and \<open>j\<close> lie in the same group of four and \<open>0\<close> otherwise. Steering any batch of
  256-vectors with power 4 returns the batch.
\<close>

theorem c4_generator_blocks_and_period:
  "\<exists>s. from_pretrained ''C4'' k = Inr s \<and>
       generator s = block_diag (replicate 64 c4_block) \<and>
       nrows (generator s) = 256 \<and> ncols (generator s) = 256 \<and> wf_tensor (generator s) \<and>
       (\<forall>i j. i < 256 \<and> j < 256 \<longrightarrow>
          entry (generator s) i j =
            (if i div 4 = j div 4 then entry c4_block (i mod 4) (j mod 4) else 0)) \<and>
       (\<forall>x. wf_tensor x \<and> ncols x = 256 \<longrightarrow> steer_descriptions s x 4 False = Inr x)"
proof -
  let ?s = "eval_mode (DiscreteSteerer c4_generator)"
  have g: "generator ?s = c4_generator"
    by (simp add: eval_mode_def DiscreteSteerer_def)
  have entries: "entry c4_generator i j =
      (if i div 4 = j div 4 then entry c4_block (i mod 4) (j mod 4) else 0)"
    if "i < 256" "j < 256" for i j
    unfolding c4_generator_64
    by (rule block_diag_replicate_entry [OF wf_c4_block nrows_c4_block ncols_c4_block])
       (use that in simp_all)
  have "from_pretrained ''C4'' k = Inr ?s"
    by (simp add: from_pretrained_def)
  moreover have "generator ?s = block_diag (replicate 64 c4_block)"
    using g c4_generator_64 by simp
  moreover have "nrows (generator ?s) = 256" "ncols (generator ?s) = 256"
    "wf_tensor (generator ?s)"
    using g by (simp_all add: nrows_c4_generator ncols_c4_generator wf_c4_generator)
  moreover have "\<forall>i j. i < 256 \<and> j < 256 \<longrightarrow>
      entry (generator ?s) i j =
        (if i div 4 = j div 4 then entry c4_block (i mod 4) (j mod 4) else 0)"
    using g entries by simp
  moreover have "\<forall>x. wf_tensor x \<and> ncols x = 256 \<longrightarrow> steer_descriptions ?s x 4 False = Inr x"
    using steer_c4_period [OF g] by blast
  ultimately show ?thesis by blast
qed

theorem c4_generator_blocks_and_period_witness:
  "wf_tensor \<lparr>ncols = 256, rows = [replicate 256 7]\<rparr> \<and>
   (\<exists>s. from_pretrained ''C4'' 8 = Inr s \<and>
        entry (generator s) 5 6 = 1 \<and> entry (generator s) 5 9 = 0 \<and>
        steer_descriptions s \<lparr>ncols = 256, rows = [replicate 256 7]\<rparr> 4 False =
          Inr \<lparr>ncols = 256, rows = [replicate 256 7]\<rparr>)"
proof -
  have wf: "wf_tensor \<lparr>ncols = 256, rows = [replicate 256 7]\<rparr>"
    by (simp add: wf_tensor_def)
  obtain s where s: "from_pretrained ''C4'' 8 = Inr s"
    and entries: "\<forall>i j. i < 256 \<and> j < 256 \<longrightarrow>
          entry (generator s) i j =
            (if i div 4 = j div 4 then entry c4_block (i mod 4) (j mod 4) else 0)"
    and period: "\<forall>x. wf_tensor x \<and> ncols x = 256 \<longrightarrow> steer_descriptions s x 4 False = Inr x"
    using c4_generator_blocks_and_period [of 8] by blast
  have "entry (generator s) 5 6 = (if (5::nat) div 4 = 6 div 4
          then entry c4_block (5 mod 4) (6 mod 4) else 0)"
    using entries by simp
  then have e1: "entry (generator s) 5 6 = 1"
    by (simp add: entry_def c4_block_def)
  have "entry (generator s) 5 9 = (if (5::nat) div 4 = 9 div 4
          then entry c4_block (5 mod 4) (9 mod 4) else 0)"
    using entries by simp
  then have e2: "entry (generator s) 5 9 = 0"
    by simp
  have "steer_descriptions s \<lparr>ncols = 256, rows = [replicate 256 7]\<rparr> 4 False =
          Inr \<lparr>ncols = 256, rows = [replicate 256 7]\<rparr>"
    using period wf by simp
  with wf s e1 e2 show ?thesis by blast
qed

subsection \<open>The \<^verbatim>\<open>"SO2"\<close> generator\<close>

text \<open>
  The series of \<^const>\<open>matrix_exp\<close> is the exponential series: on a \<open>1 \<times> 1\<close> tensor it gives
  the real exponential of the entry.
\<close>

lemma mat_pow_1x1: "mat_pow \<lparr>ncols = 1, rows = [[a]]\<rparr> n = \<lparr>ncols = 1, rows = [[a ^ n]]\<rparr>"
  by (induction n) (simp_all add: identity_def matmul_def dot_def col_def)

lemma matrix_exp_1x1:
  "matrix_exp \<lparr>ncols = 1, rows = [[a]]\<rparr> = Inr \<lparr>ncols = 1, rows = [[exp a]]\<rparr>"
proof -
  have "(\<Sum>n. entry (mat_pow \<lparr>ncols = 1, rows = [[a]]\<rparr> n) 0 0 / fact n) = exp a"
    by (simp only: mat_pow_1x1) (simp add: entry_def exp_def divide_inverse mult.commute)
  moreover have "[0..<1] = [0::nat]"
    by simp
  ultimately show ?thesis
    by (simp add: matrix_exp_def nrows_def del: One_nat_def)
qed

lemma upto_1_6: "[1..6] = [1, 2, 3, 4, 5, 6::int]"
  by code_simp

lemma nrows_zeros: "nrows (zeros n m) = n"
  by (simp add: nrows_def zeros_def)

lemma nrows_so2_block: "nrows (so2_block j) = 2"
  by (simp add: nrows_def so2_block_def)

lemma ncols_lie_generator: "ncols lie_generator = 253"
  by (simp only: lie_generator_def ncols_block_diag)
     (simp add: descriptor_dim_def zeros_def so2_block_def upto_1_6 sum_list_replicate)

lemma nrows_lie_generator: "nrows lie_generator = 253"
  by (simp only: lie_generator_def nrows_block_diag)
     (simp add: descriptor_dim_def nrows_zeros nrows_so2_block upto_1_6 sum_list_replicate)

lemma so2_generator_shape:
  "k \<noteq> 0 \<Longrightarrow>
   \<exists>s. from_pretrained ''SO2'' k = Inr s \<and> nrows (generator s) = 253 \<and> ncols (generator s) = 253"
  by (simp add: from_pretrained_def matrix_exp_def scale_def nrows_def ncols_lie_generator
        nrows_lie_generator[unfolded nrows_def] eval_mode_def DiscreteSteerer_def)

text \<open>
  Claim C1, on the source at \<open>steerer_order = 8\<close>. The claim asks for a \<open>256 \<times> 256\<close>
  generator. The size of the zero block as the source computes it,
  \<open>256 - (12 * 256) div 14\<close>, is \<open>37\<close>; with the \<open>6 * 18\<close> blocks of size two that follow,
  the Lie-algebra tensor and the generator returned have 253 rows and 253 columns. Only
  with the quotient taken first, \<open>256 - 12 * (256 div 14)\<close>, would the sizes add up to 256.
\<close>

theorem so2_generator_is_253_square:
  "nat (descriptor_dim - (12 * descriptor_dim) div 14) = 37 \<and>
   nrows lie_generator = 253 \<and> ncols lie_generator = 253 \<and>
   (\<exists>s. from_pretrained ''SO2'' 8 = Inr s \<and>
        nrows (generator s) = 253 \<and> ncols (generator s) = 253) \<and>
   nat (descriptor_dim - 12 * (descriptor_dim div 14)) +
     2 * (6 * nat (descriptor_dim div 14)) = 256"
proof -
  have "nat (descriptor_dim - (12 * descriptor_dim) div 14) = 37"
    by (simp add: descriptor_dim_def)
  moreover have "\<exists>s. from_pretrained ''SO2'' 8 = Inr s \<and>
        nrows (generator s) = 253 \<and> ncols (generator s) = 253"
    by (rule so2_generator_shape) simp
  moreover have "nat (descriptor_dim - 12 * (descriptor_dim div 14)) +
     2 * (6 * nat (descriptor_dim div 14)) = 256"
    by (simp add: descriptor_dim_def)
  ultimately show ?thesis
    by (simp add: nrows_lie_generator ncols_lie_generator)
qed

text \<open>
  Claim C6, on the source. The steerer of \<open>from_pretrained "SO2"\<close> with order 8 cannot be
  applied to a descriptor of the descriptor dimension: on a batch of one 256-vector,
  steering with power 8 ends with the shape error of the first application, since the
  generator has 253 columns.
\<close>

theorem so2_steerer_rejects_descriptors:
  "\<exists>s. from_pretrained ''SO2'' 8 = Inr s \<and>
       steer_descriptions s \<lparr>ncols = 256, rows = [replicate 256 1]\<rparr> 8 False =
         Inl ShapeMismatch"
proof -
  let ?x = "\<lparr>ncols = 256, rows = [replicate 256 1]\<rparr>"
  have "\<exists>s. from_pretrained ''SO2'' 8 = Inr s \<and>
        nrows (generator s) = 253 \<and> ncols (generator s) = 253"
    by (rule so2_generator_shape) simp
  then obtain s where s: "from_pretrained ''SO2'' 8 = Inr s" "ncols (generator s) = 253"
    by blast
  have "forward s ?x = Inl ShapeMismatch"
    using s(2) by (simp add: forward_def linear_t_def)
  then have "steer_loop s (Suc 7) ?x = Inl ShapeMismatch"
    by (simp only: steer_loop.simps sum.case)
  moreover have "nat 8 = Suc 7"
    by simp
  ultimately have "steer_descriptions s ?x 8 False = Inl ShapeMismatch"
    by (simp only: steer_descriptions_def sum.case)
  with s(1) show ?thesis by blast
qed

end
